theory Spec2Isabelle
  imports Complex_Main
begin

section \<open>Python and numpy values\<close>

text \<open>
  The model covers \<^verbatim>\<open>stochastic/continuous/spatial_point_process.py\<close>: the class
  \<^verbatim>\<open>SpatialPointProcess\<close>, its two validated attributes, the rejection sampler
  \<^verbatim>\<open>_sample_spatial_point_process\<close> and the public \<^verbatim>\<open>sample\<close>.

  Numbers are idealised: a Python or numpy float is a real, an integer is an \<open>int\<close>.
  Rounding is not modelled. What numpy's division does at a zero divisor is modelled, because
  the sampler's behaviour on a zero maximum depends on it.
\<close>

datatype error =
  ValueError | AttributeError | IndexError | TypeError | UnboundLocalError | ZeroDivisionError

text \<open>An element of a candidate block: \<^verbatim>\<open>randint\<close> yields integers, \<^verbatim>\<open>uniform\<close> floats.\<close>

datatype num = IntV int | FloatV real

text \<open>
  The arrays the sampler builds are one- or two-dimensional. \<open>Arr2 rows\<close> has shape
  \<open>(length rows, length (hd rows))\<close>; a two-dimensional array without rows is \<open>Arr2 []\<close>, whose
  column count is not tracked.
\<close>

datatype 'a arr = Arr1 "'a list" | Arr2 "'a list list"

text \<open>A weight grid of any rank: its shape and its entries in row-major order.\<close>

record ndarray =
  shape :: "nat list"
  data :: "real list"

text \<open>
  The result of a float division as numpy computes it: a finite quotient, or one of the
  special values a zero divisor produces.
\<close>

datatype ieee = Fin real | PosInf | NegInf | NaN

datatype 'a nd = Scalar 'a | Vec "'a list"

text \<open>
  What a density callable returns: a Python number, a numpy scalar or a one-dimensional numpy
  array. Results of other Python types are outside the model.
\<close>

datatype dval = PyNum real | NpScalar real | NpVec "real list"

text \<open>The values the code passes to the density, positionally or by keyword.\<close>

datatype pyval = Str string | Bound "real \<times> real" | Array "num arr" | Number real | NoneV

type_synonym kwargs = "(string \<times> pyval) list"

type_synonym callable = "pyval list \<Rightarrow> kwargs \<Rightarrow> error + dval"

text \<open>
  The objects the density setter lets through. A list or a tuple is identified with the grid
  \<^verbatim>\<open>np.asarray\<close> makes of it (rectangular numeric nesting).
\<close>

datatype density_obj =
  Callable callable | PyList ndarray | PyTuple ndarray | NdArray ndarray

text \<open>An argument of the constructor, before validation.\<close>

datatype pyobj = Density density_obj | Dict kwargs | Other

record spatial_point_process =
  density :: density_obj
  density_kwargs :: kwargs

text \<open>
  The \<^verbatim>\<open>bounds\<close> argument: a tuple or a list of \<open>(low, high)\<close> pairs. The default is the
  empty tuple.
\<close>

datatype bounds_arg = TupleB "(real \<times> real) list" | ListB "(real \<times> real) list"

fun pairs :: "bounds_arg \<Rightarrow> (real \<times> real) list" where
  "pairs (TupleB ps) = ps"
| "pairs (ListB ps) = ps"

text \<open>What a call returns: \<^verbatim>\<open>None\<close>, or the matrix of points.\<close>

datatype retval = PyNone | Points "num arr"

text \<open>What \<^verbatim>\<open>print\<close> wrote to standard output.\<close>

datatype printed = PrintStr string | PrintBounds "(real \<times> real) list"

text \<open>
  The libraries the sampler calls are parameters of the model: the process-wide random source
  of \<^verbatim>\<open>np.random\<close>, as a state \<open>'g\<close> that each draw consumes, and
  \<^verbatim>\<open>scipy.optimize.minimize\<close>, which takes the objective, the start point and the bounds
  and returns the point it found (the attribute \<^verbatim>\<open>x\<close> of its result).
\<close>

record 'g libs =
  uniform :: "real \<Rightarrow> real \<Rightarrow> nat \<Rightarrow> 'g \<Rightarrow> real list \<times> 'g"
  randint :: "int \<Rightarrow> int \<Rightarrow> nat \<Rightarrow> 'g \<Rightarrow> int list \<times> 'g"
  minimize :: "(real list \<Rightarrow> error + dval) \<Rightarrow> real list \<Rightarrow> (real \<times> real) list \<Rightarrow> error + real list"

section \<open>Construction\<close>

text \<open>
  \<^verbatim>\<open>if (not callable(value)) & (not isinstance(value, (list, tuple, np.ndarray))): raise ValueError\<close>
\<close>

fun is_callable :: "pyobj \<Rightarrow> bool" where
  "is_callable (Density (Callable f)) = True"
| "is_callable v = False"

fun is_array_like :: "pyobj \<Rightarrow> bool" where
  "is_array_like (Density (PyList w)) = True"
| "is_array_like (Density (PyTuple w)) = True"
| "is_array_like (Density (NdArray w)) = True"
| "is_array_like v = False"

fun density_setter :: "pyobj \<Rightarrow> error + density_obj" where
  "density_setter (Density d) =
     (if \<not> is_callable (Density d) \<and> \<not> is_array_like (Density d) then Inl ValueError else Inr d)"
| "density_setter v = Inl ValueError"

fun density_kwargs_setter :: "pyobj \<Rightarrow> error + kwargs" where
  "density_kwargs_setter (Dict kw) = Inr kw"
| "density_kwargs_setter v = Inl ValueError"

definition init :: "pyobj \<Rightarrow> pyobj \<Rightarrow> error + spatial_point_process" where
  "init dens kw =
     (case density_setter dens of
        Inl e \<Rightarrow> Inl e
      | Inr d \<Rightarrow>
          (case density_kwargs_setter kw of
             Inl e \<Rightarrow> Inl e
           | Inr k \<Rightarrow> Inr \<lparr>density = d, density_kwargs = k\<rparr>))"

section \<open>The numpy operations the sampler uses\<close>

fun ncols :: "'a list list \<Rightarrow> nat" where
  "ncols [] = 0"
| "ncols (r # rs) = length r"

fun len :: "'a arr \<Rightarrow> nat" where
  "len (Arr1 xs) = length xs"
| "len (Arr2 rows) = length rows"

fun ndim :: "'a arr \<Rightarrow> nat" where
  "ndim (Arr1 xs) = 1"
| "ndim (Arr2 rows) = 2"

text \<open>The rows of the transpose of a two-dimensional array.\<close>

fun columns :: "'a list list \<Rightarrow> 'a list list" where
  "columns [] = []"
| "columns [r] = map (\<lambda>x. [x]) r"
| "columns (r # rs) = map2 (#) r (columns rs)"

text \<open>The attribute \<^verbatim>\<open>.T\<close>: a one-dimensional array is its own transpose.\<close>

fun T :: "'a arr \<Rightarrow> 'a arr" where
  "T (Arr1 xs) = Arr1 xs"
| "T (Arr2 rows) = Arr2 (columns rows)"

text \<open>\<^verbatim>\<open>np.vstack\<close> on two arrays: a one-dimensional array counts as one row.\<close>

fun vstack :: "'a arr \<Rightarrow> 'a arr \<Rightarrow> error + 'a arr" where
  "vstack (Arr1 xs) (Arr1 ys) =
     (if length xs = length ys then Inr (Arr2 [xs, ys]) else Inl ValueError)"
| "vstack (Arr2 rows) (Arr1 ys) =
     (if ncols rows = length ys then Inr (Arr2 (rows @ [ys])) else Inl ValueError)"
| "vstack (Arr1 xs) (Arr2 rows) =
     (if length xs = ncols rows then Inr (Arr2 (xs # rows)) else Inl ValueError)"
| "vstack (Arr2 rows) (Arr2 rows') =
     (if ncols rows = ncols rows' then Inr (Arr2 (rows @ rows')) else Inl ValueError)"

text \<open>\<^verbatim>\<open>np.hstack\<close> on two arrays of the same rank.\<close>

fun hstack :: "'a arr \<Rightarrow> 'a arr \<Rightarrow> error + 'a arr" where
  "hstack (Arr1 xs) (Arr1 ys) = Inr (Arr1 (xs @ ys))"
| "hstack (Arr2 rows) (Arr2 rows') =
     (if length rows = length rows' then Inr (Arr2 (map2 (@) rows rows')) else Inl ValueError)"
| "hstack A B = Inl ValueError"

text \<open>The entries of a row that a boolean mask selects.\<close>

definition compress :: "bool list \<Rightarrow> 'a list \<Rightarrow> 'a list" where
  "compress keep xs = map snd (filter fst (zip keep xs))"

text \<open>\<^verbatim>\<open>A[:, mask]\<close> with a one-dimensional boolean mask.\<close>

fun getcols_mask :: "'a arr \<Rightarrow> bool list \<Rightarrow> error + 'a arr" where
  "getcols_mask (Arr1 xs) keep = Inl IndexError"
| "getcols_mask (Arr2 rows) keep =
     (if length keep = ncols rows then Inr (Arr2 (map (compress keep) rows)) else Inl IndexError)"

text \<open>A Python slice \<^verbatim>\<open>xs[:n]\<close>: a negative \<open>n\<close> counts from the end.\<close>

definition slice_to :: "int \<Rightarrow> 'a list \<Rightarrow> 'a list" where
  "slice_to n xs = take (nat (if n < 0 then int (length xs) + n else n)) xs"

text \<open>\<^verbatim>\<open>A[:, :n]\<close>\<close>

fun getcols_to :: "'a arr \<Rightarrow> int \<Rightarrow> error + 'a arr" where
  "getcols_to (Arr1 xs) n = Inl IndexError"
| "getcols_to (Arr2 rows) n = Inr (Arr2 (map (slice_to n) rows))"

text \<open>Elementwise operations with numpy's broadcasting, up to rank one.\<close>

fun broadcast :: "('a \<Rightarrow> 'b \<Rightarrow> 'c) \<Rightarrow> 'a nd \<Rightarrow> 'b nd \<Rightarrow> error + 'c nd" where
  "broadcast f (Scalar x) (Scalar y) = Inr (Scalar (f x y))"
| "broadcast f (Scalar x) (Vec ys) = Inr (Vec (map (f x) ys))"
| "broadcast f (Vec xs) (Scalar y) = Inr (Vec (map (\<lambda>x. f x y) xs))"
| "broadcast f (Vec xs) (Vec ys) =
     (if length xs = length ys then Inr (Vec (map2 f xs ys))
      else if length xs = 1 then Inr (Vec (map (f (hd xs)) ys))
      else if length ys = 1 then Inr (Vec (map (\<lambda>x. f x (hd ys)) xs))
      else Inl ValueError)"

text \<open>
  numpy's float division: a zero divisor gives an infinity or, for \<open>0/0\<close>, not-a-number (with
  a warning, not an exception). Signed zeros are not modelled.
\<close>

definition true_divide :: "real \<Rightarrow> real \<Rightarrow> ieee" where
  "true_divide x y =
     (if y \<noteq> 0 then Fin (x / y) else if 0 < x then PosInf else if x < 0 then NegInf else NaN)"

text \<open>\<^verbatim>\<open>u < c\<close> for a finite \<open>u\<close>: every comparison with not-a-number is false.\<close>

fun less_ieee :: "real \<Rightarrow> ieee \<Rightarrow> bool" where
  "less_ieee u (Fin c) = (u < c)"
| "less_ieee u PosInf = True"
| "less_ieee u NegInf = False"
| "less_ieee u NaN = False"

text \<open>
  \<^verbatim>\<open>U < Criteria\<close>, where \<^verbatim>\<open>U\<close> is a one-dimensional array: the comparison
  broadcasts a scalar or a one-element array.
\<close>

fun less_mask :: "real list \<Rightarrow> ieee nd \<Rightarrow> error + bool list" where
  "less_mask U (Scalar c) = Inr (map (\<lambda>u. less_ieee u c) U)"
| "less_mask U (Vec cs) =
     (if length U = length cs then Inr (map2 less_ieee U cs)
      else if length U = 1 then Inr (map (less_ieee (hd U)) cs)
      else if length cs = 1 then Inr (map (\<lambda>u. less_ieee u (hd cs)) U)
      else Inl ValueError)"

fun as_nd :: "dval \<Rightarrow> real nd" where
  "as_nd (PyNum x) = Scalar x"
| "as_nd (NpScalar x) = Scalar x"
| "as_nd (NpVec xs) = Vec xs"

text \<open>
  The operator \<^verbatim>\<open>/\<close>: between two Python numbers a zero divisor raises; as soon as one
  operand is a numpy value the division is numpy's.
\<close>

fun truediv :: "dval \<Rightarrow> dval \<Rightarrow> error + ieee nd" where
  "truediv (PyNum x) (PyNum y) =
     (if y = 0 then Inl ZeroDivisionError else Inr (Scalar (Fin (x / y))))"
| "truediv a b = broadcast true_divide (as_nd a) (as_nd b)"

text \<open>Unary minus, as the objective \<^verbatim>\<open>lambda x: -self.density(x)\<close> applies it.\<close>

fun neg :: "dval \<Rightarrow> dval" where
  "neg (PyNum x) = PyNum (- x)"
| "neg (NpScalar x) = NpScalar (- x)"
| "neg (NpVec xs) = NpVec (map uminus xs)"

text \<open>\<^verbatim>\<open>np.amax\<close>: the largest entry; an empty array has none.\<close>

definition amax :: "ndarray \<Rightarrow> error + real" where
  "amax w = (case data w of [] \<Rightarrow> Inl ValueError | x # xs \<Rightarrow> Inr (fold max xs x))"

text \<open>
  The row-major offset of an index tuple, one index per axis. A negative index counts from the
  end of its axis; an index out of range, a float index and an index too many raise
  \<^verbatim>\<open>IndexError\<close>. The sampler always indexes with one index per axis (a tuple shorter
  than the rank, which in numpy selects a sub-array, does not arise and is reported as
  \<^verbatim>\<open>IndexError\<close> here).
\<close>

fun ravel_multi_index :: "nat list \<Rightarrow> num list \<Rightarrow> error + nat" where
  "ravel_multi_index [] [] = Inr 0"
| "ravel_multi_index (s # ss) (IntV i # is) =
     (let j = (if i < 0 then i + int s else i) in
      if 0 \<le> j \<and> j < int s then
        (case ravel_multi_index ss is of
           Inl e \<Rightarrow> Inl e
         | Inr r \<Rightarrow> Inr (nat j * prod_list ss + r))
      else Inl IndexError)"
| "ravel_multi_index ss is = Inl IndexError"

definition getitem :: "nat list \<Rightarrow> 'a list \<Rightarrow> num list \<Rightarrow> error + 'a" where
  "getitem shp grid point =
     (case ravel_multi_index shp point of
        Inl e \<Rightarrow> Inl e
      | Inr k \<Rightarrow> if k < length grid then Inr (grid ! k) else Inl IndexError)"

text \<open>Running a fallible function over a list, stopping at the first error.\<close>

fun map_err :: "('a \<Rightarrow> error + 'b) \<Rightarrow> 'a list \<Rightarrow> error + 'b list" where
  "map_err f [] = Inr []"
| "map_err f (x # xs) =
     (case f x of
        Inl e \<Rightarrow> Inl e
      | Inr y \<Rightarrow> (case map_err f xs of Inl e \<Rightarrow> Inl e | Inr ys \<Rightarrow> Inr (y # ys)))"

section \<open>The rejection sampler\<close>

text \<open>
  The maximum \<^verbatim>\<open>lmax\<close>, computed before the loop:
  \<^verbatim>\<open>
  if callable(self.density):
      boundstuple=[]
      for i in bounds: boundstuple+=(tuple(i),)
      max = scipy.optimize.minimize(lambda x: -self.density(x),
                x0=[np.mean(i) for i in bounds],bounds = boundstuple)
      lmax = self.density(max.x, *self.density_kwargs)
  else:
      lmax = np.amax(self.density)
  \<close>
  \<^verbatim>\<open>*self.density_kwargs\<close> unpacks the dictionary's keys as further positional arguments.
\<close>

definition point_arg :: "real list \<Rightarrow> pyval" where
  "point_arg x = Array (Arr1 (map FloatV x))"

definition compute_lmax ::
  "'g libs \<Rightarrow> spatial_point_process \<Rightarrow> (real \<times> real) list \<Rightarrow> error + dval" where
  "compute_lmax L self bounds =
     (case density self of
        Callable f \<Rightarrow>
          (case minimize L (\<lambda>x. map_sum id neg (f [point_arg x] []))
                  (map (\<lambda>(lo, hi). (lo + hi) / 2) bounds) bounds of
             Inl e \<Rightarrow> Inl e
           | Inr x \<Rightarrow> f (point_arg x # map (Str \<circ> fst) (density_kwargs self)) [])
      | PyList w \<Rightarrow> map_sum id NpScalar (amax w)
      | PyTuple w \<Rightarrow> map_sum id NpScalar (amax w)
      | NdArray w \<Rightarrow> map_sum id NpScalar (amax w))"

text \<open>
  One candidate block. The loops \<^verbatim>\<open>for bound in bounds\<close> and
  \<^verbatim>\<open>for shape in self.density.shape\<close> draw one row per item; \<open>None\<close> stands for
  \<^verbatim>\<open>'Unthinned' not in locals()\<close>.
\<close>

fun draw_block ::
  "('s \<Rightarrow> 'g \<Rightarrow> num list \<times> 'g) \<Rightarrow> 's list \<Rightarrow> num arr option \<Rightarrow> 'g \<Rightarrow> error + (num arr option \<times> 'g)"
where
  "draw_block draw [] Unthinned g = Inr (Unthinned, g)"
| "draw_block draw (s # ss) Unthinned g =
     (case draw s g of
        (row, g') \<Rightarrow>
          (case Unthinned of
             None \<Rightarrow> draw_block draw ss (Some (Arr1 row)) g'
           | Some A \<Rightarrow>
               (case vstack A (Arr1 row) of
                  Inl e \<Rightarrow> Inl e
                | Inr A' \<Rightarrow> draw_block draw ss (Some A') g')))"

definition draw_uniform :: "'g libs \<Rightarrow> nat \<Rightarrow> real \<times> real \<Rightarrow> 'g \<Rightarrow> num list \<times> 'g" where
  "draw_uniform L blocksize bound g =
     (case uniform L (fst bound) (snd bound) blocksize g of (xs, g') \<Rightarrow> (map FloatV xs, g'))"

definition draw_randint :: "'g libs \<Rightarrow> nat \<Rightarrow> nat \<Rightarrow> 'g \<Rightarrow> num list \<times> 'g" where
  "draw_randint L blocksize shp g =
     (case randint L 0 (int shp) blocksize g of (xs, g') \<Rightarrow> (map IntV xs, g'))"

text \<open>
  \<^verbatim>\<open>
  if callable(self.density):
      for bound in bounds: ...np.random.uniform(*bound, size=(blocksize))...
  else:
      for shape in self.density.shape: ...np.random.randint(0, shape, size=(blocksize))...
  \<close>
  A list or a tuple has no attribute \<^verbatim>\<open>shape\<close>.
\<close>

fun generate ::
  "'g libs \<Rightarrow> density_obj \<Rightarrow> (real \<times> real) list \<Rightarrow> nat \<Rightarrow> 'g \<Rightarrow> error + (num arr option \<times> 'g)"
where
  "generate L (Callable f) bounds blocksize g =
     draw_block (draw_uniform L blocksize) bounds None g"
| "generate L (NdArray w) bounds blocksize g =
     draw_block (draw_randint L blocksize) (shape w) None g"
| "generate L (PyList w) bounds blocksize g = Inl AttributeError"
| "generate L (PyTuple w) bounds blocksize g = Inl AttributeError"

text \<open>
  \<^verbatim>\<open>
  if callable(self.density):
      Criteria = self.density(Unthinned.T)/lmax
  else:
      Criteria_ndim = self.density/lmax
      Criteria = []
      for point in Unthinned.T:
          Criteria.append(Criteria_ndim[tuple(point)])
  \<close>
  In the second branch \<^verbatim>\<open>lmax\<close> is the scalar \<^verbatim>\<open>np.amax\<close> returned, and the
  division is numpy's, entry by entry over the whole grid. (A one-dimensional \<^verbatim>\<open>lmax\<close>
  does not arise there; the model reports it as \<^verbatim>\<open>ValueError\<close>.) Iterating over a
  one-dimensional \<^verbatim>\<open>Unthinned.T\<close> would yield scalars, which \<^verbatim>\<open>tuple\<close> rejects.
\<close>

fun grid_divide :: "real list \<Rightarrow> dval \<Rightarrow> error + ieee list" where
  "grid_divide ws (PyNum l) = Inr (map (\<lambda>x. true_divide x l) ws)"
| "grid_divide ws (NpScalar l) = Inr (map (\<lambda>x. true_divide x l) ws)"
| "grid_divide ws (NpVec ls) = Inl ValueError"

definition grid_criteria :: "ndarray \<Rightarrow> dval \<Rightarrow> num arr \<Rightarrow> error + ieee nd" where
  "grid_criteria w lmax Unthinned =
     (case grid_divide (data w) lmax of
        Inl e \<Rightarrow> Inl e
      | Inr Criteria_ndim \<Rightarrow>
          (case T Unthinned of
             Arr1 xs \<Rightarrow> Inl TypeError
           | Arr2 pts \<Rightarrow>
               map_sum id Vec (map_err (getitem (shape w) Criteria_ndim) pts)))"

fun criteria :: "density_obj \<Rightarrow> dval \<Rightarrow> num arr \<Rightarrow> error + ieee nd" where
  "criteria (Callable f) lmax Unthinned =
     (case f [Array (T Unthinned)] [] of
        Inl e \<Rightarrow> Inl e
      | Inr v \<Rightarrow> truediv v lmax)"
| "criteria (NdArray w) lmax Unthinned = grid_criteria w lmax Unthinned"
| "criteria (PyList w) lmax Unthinned = grid_criteria w lmax Unthinned"
| "criteria (PyTuple w) lmax Unthinned = grid_criteria w lmax Unthinned"

text \<open>
  The body of \<^verbatim>\<open>while len(Thinned.T) < n\<close>: one block of candidates, its thresholds
  \<^verbatim>\<open>U\<close>, its acceptance ratios, and the accepted columns stacked onto \<^verbatim>\<open>Thinned\<close>.
  Assigning to the attribute \<^verbatim>\<open>T\<close> of an array raises \<^verbatim>\<open>AttributeError\<close>.
\<close>

definition accept :: "num arr \<Rightarrow> num arr \<Rightarrow> real list \<Rightarrow> ieee nd \<Rightarrow> error + num arr" where
  "accept Thinned Unthinned U Criteria =
     (case less_mask U Criteria of
        Inl e \<Rightarrow> Inl e
      | Inr keep \<Rightarrow>
          (case getcols_mask Unthinned keep of
             Inl e \<Rightarrow> Inl e
           | Inr accepted \<Rightarrow>
               if len Thinned = 0 then Inr accepted else hstack Thinned accepted))"

definition loop_body ::
  "'g libs \<Rightarrow> density_obj \<Rightarrow> dval \<Rightarrow> (real \<times> real) list \<Rightarrow> nat \<Rightarrow> num arr \<Rightarrow> 'g
     \<Rightarrow> error + (num arr \<times> 'g)"
where
  "loop_body L dens lmax bounds blocksize Thinned g =
     (case generate L dens bounds blocksize g of
        Inl e \<Rightarrow> Inl e
      | Inr (None, g1) \<Rightarrow> Inl UnboundLocalError
      | Inr (Some Unthinned, g1) \<Rightarrow>
          if ndim (T Unthinned) = 1 then Inl AttributeError
          else
            (case uniform L 0 1 blocksize g1 of
               (U, g2) \<Rightarrow>
                 (case criteria dens lmax Unthinned of
                    Inl e \<Rightarrow> Inl e
                  | Inr Criteria \<Rightarrow>
                      (case accept Thinned Unthinned U Criteria of
                         Inl e \<Rightarrow> Inl e
                       | Inr Thinned' \<Rightarrow> Inr (Thinned', g2)))))"

text \<open>
  The loop \<^verbatim>\<open>while len(Thinned.T) < n\<close>. The source puts no bound on the number of
  blocks, so the model counts them: \<open>None\<close> says that the loop is still running after \<open>fuel\<close>
  blocks.
\<close>

fun while_loop ::
  "'g libs \<Rightarrow> density_obj \<Rightarrow> dval \<Rightarrow> (real \<times> real) list \<Rightarrow> int \<Rightarrow> nat \<Rightarrow> nat \<Rightarrow> num arr \<Rightarrow> 'g
     \<Rightarrow> (error + num arr) option"
where
  "while_loop L dens lmax bounds n blocksize 0 Thinned g =
     (if int (len (T Thinned)) < n then None else Some (Inr Thinned))"
| "while_loop L dens lmax bounds n blocksize (Suc fuel) Thinned g =
     (if int (len (T Thinned)) < n then
        (case loop_body L dens lmax bounds blocksize Thinned g of
           Inl e \<Rightarrow> Some (Inl e)
         | Inr (Thinned', g') \<Rightarrow> while_loop L dens lmax bounds n blocksize fuel Thinned' g')
      else Some (Inr Thinned))"

text \<open>
  \<^verbatim>\<open>
  def _sample_spatial_point_process(self, n=None, bounds=(), algo='thinning', blocksize=1000):
      if (n is not None) & (bounds is not ()):
          if algo=='thinning':
              ...
              Thinned = np.array([])
              while len(Thinned.T) < n: ...
              Thinned = Thinned[:, :n]
              return(Thinned.T)
  \<close>
  A call that leaves either \<^verbatim>\<open>if\<close> falls off the end of the function and returns
  \<^verbatim>\<open>None\<close>.
\<close>

definition sample_spatial_point_process ::
  "'g libs \<Rightarrow> spatial_point_process \<Rightarrow> int option \<Rightarrow> bounds_arg \<Rightarrow> string \<Rightarrow> nat \<Rightarrow> nat \<Rightarrow> 'g
     \<Rightarrow> (error + retval) option"
where
  "sample_spatial_point_process L self n bounds algo blocksize fuel g =
     (case n of
        None \<Rightarrow> Some (Inr PyNone)
      | Some n' \<Rightarrow>
          if bounds \<noteq> TupleB [] then
            if algo = ''thinning'' then
              (case compute_lmax L self (pairs bounds) of
                 Inl e \<Rightarrow> Some (Inl e)
               | Inr lmax \<Rightarrow>
                   (case while_loop L (density self) lmax (pairs bounds) n' blocksize fuel
                           (Arr1 []) g of
                      None \<Rightarrow> None
                    | Some (Inl e) \<Rightarrow> Some (Inl e)
                    | Some (Inr Thinned) \<Rightarrow>
                        (case getcols_to Thinned n' of
                           Inl e \<Rightarrow> Some (Inl e)
                         | Inr Thinned' \<Rightarrow> Some (Inr (Points (T Thinned'))))))
            else Some (Inr PyNone)
          else Some (Inr PyNone))"

text \<open>
  \<^verbatim>\<open>
  def sample(self, n=None, bounds=(), algo='thinning', blocksize=1000):
      print('a')
      if callable(self.density):
          try:
              print(*bounds)
              self.density(*bounds, **self.density_kwargs)
          except:
              pass
      return self._sample_spatial_point_process(n, bounds, algo, blocksize)
  \<close>
  The model returns, beside the result, what was printed and the outcome of the call into
  the density that the \<^verbatim>\<open>try\<close> block makes and drops.
\<close>

record 'r run =
  stdout :: "printed list"
  probe :: "(error + dval) option"
  result :: 'r

definition sample ::
  "'g libs \<Rightarrow> spatial_point_process \<Rightarrow> int option \<Rightarrow> bounds_arg \<Rightarrow> string \<Rightarrow> nat \<Rightarrow> nat \<Rightarrow> 'g
     \<Rightarrow> (error + retval) option run"
where
  "sample L self n bounds algo blocksize fuel g =
     (case density self of
        Callable f \<Rightarrow>
          \<lparr>stdout = [PrintStr ''a'', PrintBounds (pairs bounds)],
           probe = Some (f (map Bound (pairs bounds)) (density_kwargs self)),
           result = sample_spatial_point_process L self n bounds algo blocksize fuel g\<rparr>
      | d \<Rightarrow>
          \<lparr>stdout = [PrintStr ''a''],
           probe = None,
           result = sample_spatial_point_process L self n bounds algo blocksize fuel g\<rparr>)"

section \<open>Notions used to state the properties\<close>

text \<open>
  What numpy documents for the two draws: \<^verbatim>\<open>size=k\<close> values, each in the half-open
  interval from \<^verbatim>\<open>low\<close> to \<^verbatim>\<open>high\<close>.
\<close>

definition numpy_random :: "'g libs \<Rightarrow> bool" where
  "numpy_random L \<longleftrightarrow>
     (\<forall>lo hi k g. length (fst (uniform L lo hi k g)) = k
        \<and> (lo < hi \<longrightarrow> list_all (\<lambda>x. lo \<le> x \<and> x < hi) (fst (uniform L lo hi k g))))
   \<and> (\<forall>lo hi k g. length (fst (randint L lo hi k g)) = k
        \<and> (lo < hi \<longrightarrow> list_all (\<lambda>i. lo \<le> i \<and> i < hi) (fst (randint L lo hi k g))))"

text \<open>The points an array holds: the rows of its transpose.\<close>

fun points :: "'a arr \<Rightarrow> 'a list list" where
  "points (Arr1 xs) = map (\<lambda>x. [x]) xs"
| "points (Arr2 rows) = columns rows"

text \<open>
  The shapes \<^verbatim>\<open>Thinned\<close> takes: the empty one-dimensional array it starts as, then a
  matrix with one row per dimension, all rows of one length.
\<close>

definition accepted_set :: "'a arr \<Rightarrow> bool" where
  "accepted_set A =
     (case A of
        Arr1 xs \<Rightarrow> xs = []
      | Arr2 rows \<Rightarrow> rows \<noteq> [] \<and> list_all (\<lambda>r. length r = ncols rows) rows)"

text \<open>A scalar or a one-element array, broadcast to \<open>k\<close> entries.\<close>

fun expand :: "nat \<Rightarrow> 'a nd \<Rightarrow> 'a list" where
  "expand k (Scalar c) = replicate k c"
| "expand k (Vec cs) = (if length cs = k then cs else replicate k (hd cs))"

text \<open>The rows the loop over the bounds, or over the axes, draws one after the other.\<close>

fun draw_rows :: "('s \<Rightarrow> 'g \<Rightarrow> num list \<times> 'g) \<Rightarrow> 's list \<Rightarrow> 'g \<Rightarrow> num list list \<times> 'g" where
  "draw_rows draw [] g = ([], g)"
| "draw_rows draw (s # ss) g =
     (case draw s g of
        (row, g') \<Rightarrow> (case draw_rows draw ss g' of (rows, g'') \<Rightarrow> (row # rows, g'')))"

text \<open>The array \<^verbatim>\<open>Unthinned\<close> is after the rows were stacked.\<close>

fun pack :: "'a list list \<Rightarrow> 'a arr option" where
  "pack [] = None"
| "pack [r] = Some (Arr1 r)"
| "pack rows = Some (Arr2 rows)"

text \<open>A coordinate inside its bound pair, an index inside its axis.\<close>

fun in_bound :: "real \<times> real \<Rightarrow> num \<Rightarrow> bool" where
  "in_bound (lo, hi) (FloatV x) = (lo \<le> x \<and> x < hi)"
| "in_bound (lo, hi) (IntV i) = False"

fun in_axis :: "nat \<Rightarrow> num \<Rightarrow> bool" where
  "in_axis s (IntV i) = (0 \<le> i \<and> i < int s)"
| "in_axis s (FloatV x) = False"

text \<open>
  A point of the sampling region: one coordinate per bound pair, each inside its pair, for a
  callable density; one integer index per axis, each inside its axis, for a weight array.
\<close>

fun in_range :: "density_obj \<Rightarrow> (real \<times> real) list \<Rightarrow> num list \<Rightarrow> bool" where
  "in_range (Callable f) bounds p = list_all2 in_bound bounds p"
| "in_range (NdArray w) bounds p = list_all2 in_axis (shape w) p"
| "in_range (PyList w) bounds p = False"
| "in_range (PyTuple w) bounds p = False"

text \<open>Bounds with \<open>low < high\<close> in every pair; a weight array without an empty axis.\<close>

fun proper_region :: "density_obj \<Rightarrow> (real \<times> real) list \<Rightarrow> bool" where
  "proper_region (Callable f) bounds = list_all (\<lambda>b. fst b < snd b) bounds"
| "proper_region (NdArray w) bounds = list_all (\<lambda>s. 0 < s) (shape w)"
| "proper_region (PyList w) bounds = False"
| "proper_region (PyTuple w) bounds = False"






section \<open>Example inputs\<close>

text \<open>
  A deterministic stand-in for the libraries, used to run the model on concrete inputs. The
  random source is a counter: draw number \<open>i\<close> lies at the fraction \<open>(i mod 4) / 4\<close> of its
  interval, which is inside the half-open range numpy promises. The optimizer stops at its
  start point.
\<close>

fun ticks :: "nat \<Rightarrow> nat \<Rightarrow> nat list" where
  "ticks 0 g = []"
| "ticks (Suc k) g = g # ticks k (Suc g)"

definition counter_libs :: "nat libs" where
  "counter_libs =
     \<lparr>uniform = (\<lambda>lo hi k g. (map (\<lambda>i. lo + (hi - lo) * (real (i mod 4) / 4)) (ticks k g), g + k)),
      randint = (\<lambda>lo hi k g. (map (\<lambda>i. lo + int i mod (hi - lo)) (ticks k g), g + k)),
      minimize = (\<lambda>f x0 bounds. Inr x0)\<rparr>"

text \<open>The constant density \<^verbatim>\<open>lambda x: 1.0\<close>: one positional argument, no keywords.\<close>

fun const_density :: callable where
  "const_density [x] [] = Inr (PyNum 1)"
| "const_density args kw = Inl TypeError"

text \<open>
  \<^verbatim>\<open>lambda x, scale=1.0: scale * 1.0\<close>: the keyword \<^verbatim>\<open>scale\<close> may also be passed as
  the second positional argument; multiplying a string by a float raises
  \<^verbatim>\<open>TypeError\<close>.
\<close>

definition scaled_density :: callable where
  "scaled_density args kw =
     (case (args, kw) of
        ([x], []) \<Rightarrow> Inr (PyNum 1)
      | ([x, Number s], []) \<Rightarrow> Inr (PyNum s)
      | ([x], [(k, Number s)]) \<Rightarrow> if k = ''scale'' then Inr (PyNum s) else Inl TypeError
      | _ \<Rightarrow> Inl TypeError)"



section \<open>Facts about the array operations\<close>

lemma compress_Nil [simp]: "compress [] xs = []" "compress m [] = []"
  by (simp_all add: compress_def)

lemma compress_Cons [simp]:
  "compress (b # m) (x # xs) = (if b then x # compress m xs else compress m xs)"
  by (simp add: compress_def)

lemma compress_map: "compress m (map f xs) = map f (compress m xs)"
proof (induction m arbitrary: xs)
  case Nil
  then show ?case by simp
next
  case (Cons b m)
  then show ?case by (cases xs) simp_all
qed

lemma compress_zip: "compress m (zip xs ys) = zip (compress m xs) (compress m ys)"
proof (induction m arbitrary: xs ys)
  case Nil
  then show ?case by simp
next
  case (Cons b m)
  then show ?case by (cases xs; cases ys) simp_all
qed

lemma set_compress: "set (compress m xs) \<subseteq> set xs"
  unfolding compress_def by (auto dest: set_zip_rightD)

lemma compress_all_False: "list_all (\<lambda>b. \<not> b) m \<Longrightarrow> compress m xs = []"
proof (induction m arbitrary: xs)
  case Nil
  then show ?case by simp
next
  case (Cons b m)
  then show ?case by (cases xs) simp_all
qed

lemma length_columns:
  "rows \<noteq> [] \<Longrightarrow> list_all (\<lambda>r. length r = c) rows \<Longrightarrow> length (columns rows) = c"
  by (induction rows rule: columns.induct) simp_all

lemma columns_compress:
  "columns (map (compress m) rows) = compress m (columns rows)"
  by (induction rows rule: columns.induct) (simp_all add: compress_map compress_zip)

lemma columns_take: "columns (map (take n) rows) = take n (columns rows)"
  by (induction rows rule: columns.induct) (simp_all add: take_map take_zip)

lemma columns_append:
  "length a = length b \<Longrightarrow> list_all (\<lambda>r. length r = c) a \<Longrightarrow>
   columns (map2 (@) a b) = columns a @ columns b"
proof (induction a arbitrary: b rule: columns.induct)
  case 1
  then show ?case by simp
next
  case (2 r)
  then show ?case by (cases b) simp_all
next
  case (3 r r' rs)
  then obtain rb rb' bs where b: "b = rb # rb' # bs"
    by (cases b; cases "tl b") auto
  have len: "length (columns (r' # rs)) = length r"
    using 3 by (simp add: length_columns)
  have "columns (map2 (@) (r' # rs) (rb' # bs)) = columns (r' # rs) @ columns (rb' # bs)"
    using 3 by (intro 3(1)) (simp_all add: b)
  then show ?case using len by (simp add: b)
qed

lemma columns_all2:
  "list_all2 (\<lambda>b r. \<forall>x\<in>set r. P b x) bs rows \<Longrightarrow> col \<in> set (columns rows) \<Longrightarrow> list_all2 P bs col"
proof (induction rows arbitrary: bs col rule: columns.induct)
  case 1
  then show ?case by simp
next
  case (2 r)
  then show ?case by (auto simp: list_all2_Cons2)
next
  case (3 r r' rs)
  then obtain b bs' where bs: "bs = b # bs'" and b: "\<forall>x\<in>set r. P b x"
    and rest: "list_all2 (\<lambda>b r. \<forall>x\<in>set r. P b x) bs' (r' # rs)"
    by (auto simp: list_all2_Cons2)
  from 3(3) obtain x c where "col = x # c" "x \<in> set r" "c \<in> set (columns (r' # rs))"
    by (auto simp: set_zip)
  with 3(1) [OF rest] b show ?case by (simp add: bs)
qed


lemma draw_rows_Cons:
  "draw_rows draw (s # ss) g
     = (fst (draw s g) # fst (draw_rows draw ss (snd (draw s g))),
        snd (draw_rows draw ss (snd (draw s g))))"
  by (simp add: case_prod_unfold)

lemma length_draw_rows: "length (fst (draw_rows draw ss g)) = length ss"
  by (induction ss arbitrary: g) (simp_all add: draw_rows_Cons del: draw_rows.simps(2))

lemma draw_rows_all2:
  "(\<And>s g. s \<in> set ss \<Longrightarrow> Q s (fst (draw s g))) \<Longrightarrow> list_all2 Q ss (fst (draw_rows draw ss g))"
  by (induction ss arbitrary: g) (simp_all add: draw_rows_Cons del: draw_rows.simps(2))

lemma draw_rows_lengths:
  "(\<And>s g. length (fst (draw s g)) = k) \<Longrightarrow> list_all (\<lambda>r. length r = k) (fst (draw_rows draw ss g))"
  by (induction ss arbitrary: g) (simp_all add: draw_rows_Cons del: draw_rows.simps(2))

lemma pack_snoc:
  "acc \<noteq> [] \<Longrightarrow> list_all (\<lambda>r. length r = k) acc \<Longrightarrow> length row = k \<Longrightarrow>
   vstack (the (pack acc)) (Arr1 row) = Inr (the (pack (acc @ [row])))"
  by (cases acc rule: pack.cases) simp_all

lemma pack_eq_None: "pack rows = None \<longleftrightarrow> rows = []"
  by (cases rows rule: pack.cases) simp_all

lemma draw_block_pack:
  assumes "\<And>s g. length (fst (draw s g)) = k"
    and "list_all (\<lambda>r. length r = k) acc"
  shows "draw_block draw ss (pack acc) g
           = Inr (pack (acc @ fst (draw_rows draw ss g)), snd (draw_rows draw ss g))"
  using assms(2)
proof (induction ss arbitrary: acc g)
  case Nil
  then show ?case by simp
next
  case (Cons s ss)
  obtain row g' where d: "draw s g = (row, g')" by (cases "draw s g")
  then have row: "length row = k" using assms(1) [of s g] by simp
  have all: "list_all (\<lambda>r. length r = k) (acc @ [row])" using Cons.prems row by simp
  have "draw_block draw (s # ss) (pack acc) g = draw_block draw ss (pack (acc @ [row])) g'"
  proof (cases "acc = []")
    case True
    then show ?thesis by (simp add: d)
  next
    case False
    then obtain A where A: "pack acc = Some A" by (cases "pack acc") (simp_all add: pack_eq_None)
    have "pack (acc @ [row]) \<noteq> None" by (simp add: pack_eq_None)
    then obtain B where B: "pack (acc @ [row]) = Some B" by auto
    from pack_snoc [OF False Cons.prems row] show ?thesis by (simp add: d A B)
  qed
  also have "\<dots> = Inr (pack ((acc @ [row]) @ fst (draw_rows draw ss g')), snd (draw_rows draw ss g'))"
    by (rule Cons.IH [OF all])
  also have "\<dots> = Inr (pack (acc @ fst (draw_rows draw (s # ss) g)), snd (draw_rows draw (s # ss) g))"
    by (simp add: draw_rows_Cons d del: draw_rows.simps(2))
  finally show ?case .
qed

lemma draw_block_rows:
  assumes "\<And>s g. length (fst (draw s g)) = k"
  shows "draw_block draw ss None g
           = Inr (pack (fst (draw_rows draw ss g)), snd (draw_rows draw ss g))"
proof -
  have "list_all (\<lambda>r. length r = k) ([] :: num list list)" by simp
  from draw_block_pack [of draw k, OF assms this] show ?thesis by simp
qed

section \<open>Facts about one block\<close>

lemma ravel_in_axis:
  "list_all2 in_axis shp pt \<Longrightarrow> \<exists>k. ravel_multi_index shp pt = Inr k \<and> k < prod_list shp"
proof (induction shp pt rule: list_all2_induct)
  case Nil
  then show ?case by simp
next
  case (Cons s ss x pt)
  then obtain i where x: "x = IntV i" and i: "0 \<le> i" "i < int s"
    by (cases x) auto
  from Cons obtain r where r: "ravel_multi_index ss pt = Inr r" "r < prod_list ss"
    by blast
  have "nat i * prod_list ss + r < s * prod_list ss"
  proof -
    have "nat i + 1 \<le> s" using i by linarith
    then have "(nat i + 1) * prod_list ss \<le> s * prod_list ss" by (rule mult_le_mono1)
    with r(2) show ?thesis by simp
  qed
  with x i r show ?case by simp
qed

lemma map_err_all:
  "(\<And>x. x \<in> set xs \<Longrightarrow> f x = Inr (h x)) \<Longrightarrow> map_err f xs = Inr (map h xs)"
  by (induction xs) simp_all

lemma fold_max_zero: "list_all (\<lambda>x. x = (0::real)) xs \<Longrightarrow> fold max xs 0 = 0"
  by (induction xs) simp_all

lemma amax_zero:
  "data w \<noteq> [] \<Longrightarrow> list_all (\<lambda>x. x = 0) (data w) \<Longrightarrow> amax w = Inr 0"
  by (cases "data w") (simp_all add: amax_def fold_max_zero)

lemma uniform_length: "numpy_random L \<Longrightarrow> length (fst (uniform L lo hi k g)) = k"
  by (simp add: numpy_random_def)

lemma randint_length: "numpy_random L \<Longrightarrow> length (fst (randint L lo hi k g)) = k"
  by (simp add: numpy_random_def)

lemma uniform_range:
  "numpy_random L \<Longrightarrow> lo < hi \<Longrightarrow> x \<in> set (fst (uniform L lo hi k g)) \<Longrightarrow> lo \<le> x \<and> x < hi"
  unfolding numpy_random_def list_all_iff by blast

lemma randint_range:
  "numpy_random L \<Longrightarrow> lo < hi \<Longrightarrow> i \<in> set (fst (randint L lo hi k g)) \<Longrightarrow> lo \<le> i \<and> i < hi"
  unfolding numpy_random_def list_all_iff by blast

lemma draw_randint_length:
  "numpy_random L \<Longrightarrow> length (fst (draw_randint L bs s g)) = bs"
  by (simp add: randint_length draw_randint_def case_prod_unfold)

lemma draw_randint_in_axis:
  assumes "numpy_random L" "0 < s" "x \<in> set (fst (draw_randint L bs s g))"
  shows "in_axis s x"
proof -
  from assms(3) obtain i where "x = IntV i" "i \<in> set (fst (randint L 0 (int s) bs g))"
    by (auto simp: draw_randint_def case_prod_unfold)
  with randint_range [OF assms(1), of 0 "int s" i bs g] assms(2) show ?thesis by simp
qed

lemma draw_uniform_length:
  "numpy_random L \<Longrightarrow> length (fst (draw_uniform L bs b g)) = bs"
  by (simp add: uniform_length draw_uniform_def case_prod_unfold)

lemma draw_uniform_in_bound:
  assumes "numpy_random L" "fst b < snd b" "x \<in> set (fst (draw_uniform L bs b g))"
  shows "in_bound b x"
proof -
  from assms(3) obtain y where "x = FloatV y" "y \<in> set (fst (uniform L (fst b) (snd b) bs g))"
    by (auto simp: draw_uniform_def case_prod_unfold)
  with uniform_range [OF assms(1,2), of y bs g] show ?thesis by (cases b) simp
qed

lemma pack_two: "2 \<le> length rows \<Longrightarrow> pack rows = Some (Arr2 rows)"
  by (cases rows rule: pack.cases) simp_all

lemma generate_grid:
  assumes "numpy_random L" "2 \<le> length (shape w)"
  shows "generate L (NdArray w) bounds bs g
     = Inr (Some (Arr2 (fst (draw_rows (draw_randint L bs) (shape w) g))),
            snd (draw_rows (draw_randint L bs) (shape w) g))"
  using draw_block_rows [of "draw_randint L bs" bs "shape w" g] assms
  by (simp add: draw_randint_length pack_two length_draw_rows)

lemma generate_callable:
  assumes "numpy_random L" "2 \<le> length bounds"
  shows "generate L (Callable f) bounds bs g
     = Inr (Some (Arr2 (fst (draw_rows (draw_uniform L bs) bounds g))),
            snd (draw_rows (draw_uniform L bs) bounds g))"
  using draw_block_rows [of "draw_uniform L bs" bs bounds g] assms
  by (simp add: draw_uniform_length pack_two length_draw_rows)

lemma grid_rows_in_axis:
  assumes "numpy_random L" "list_all (\<lambda>s. 0 < s) shp"
  shows "list_all2 (\<lambda>s r. \<forall>x\<in>set r. in_axis s x) shp (fst (draw_rows (draw_randint L bs) shp g))"
  using assms by (intro draw_rows_all2) (auto simp: list_all_iff dest: draw_randint_in_axis)

lemma len_T_points: "len (T A) = length (points A)"
  by (cases A) simp_all

lemma map2_replicate_right: "map2 f xs (replicate (length xs) c) = map (\<lambda>x. f x c) xs"
  by (induction xs) simp_all

lemma less_mask_expand:
  assumes "less_mask U C = Inr m" "length m = length U"
  shows "m = map2 less_ieee U (expand (length U) C)"
proof (cases C)
  case (Scalar c)
  with assms show ?thesis by (auto simp: map2_replicate_right)
next
  case (Vec cs)
  with assms show ?thesis
    by (auto simp: map2_replicate_right split: if_splits)
qed

lemma length_compress: "length m = length xs \<Longrightarrow> length (compress m xs) = length (filter id m)"
proof (induction m arbitrary: xs)
  case Nil
  then show ?case by simp
next
  case (Cons b m)
  then show ?case by (cases xs) simp_all
qed


lemma pack_Arr2: "pack rows = Some (Arr2 r) \<Longrightarrow> r = rows \<and> 2 \<le> length rows"
  by (cases rows rule: pack.cases) auto

lemma ncols_rect: "rows \<noteq> [] \<Longrightarrow> list_all (\<lambda>r. length r = k) rows \<Longrightarrow> ncols rows = k"
  by (cases rows) simp_all

lemma accept_points:
  assumes T: "accepted_set Thinned"
    and rows: "rows \<noteq> []" "list_all (\<lambda>r. length r = length U) rows"
    and acc: "accept Thinned (Arr2 rows) U C = Inr Thinned'"
  shows "points Thinned'
           = points Thinned @ compress (map2 less_ieee U (expand (length U) C)) (columns rows)"
    and "accepted_set Thinned'"
proof -
  from acc obtain m where m: "less_mask U C = Inr m" and lm: "length m = ncols rows"
    and res: "(if len Thinned = 0 then Inr (Arr2 (map (compress m) rows))
               else hstack Thinned (Arr2 (map (compress m) rows))) = Inr Thinned'"
    by (auto simp: accept_def split: sum.splits if_splits)
  have nc: "ncols rows = length U" using rows by (rule ncols_rect)
  with lm have lmU: "length m = length U" by simp
  have meq: "m = map2 less_ieee U (expand (length U) C)"
    using less_mask_expand [OF m lmU] .
  let ?sel = "map (compress m) rows"
  have sel_len: "list_all (\<lambda>r. length r = length (filter id m)) ?sel"
    using rows(2) lmU by (simp add: list_all_iff length_compress)
  have sel_ne: "?sel \<noteq> []" using rows(1) by simp
  have sel_set: "accepted_set (Arr2 ?sel)"
    using sel_len sel_ne ncols_rect [OF sel_ne sel_len] by (simp add: accepted_set_def)
  have sel_pts: "points (Arr2 ?sel) = compress m (columns rows)"
    by (simp add: columns_compress)
  show "points Thinned'
           = points Thinned @ compress (map2 less_ieee U (expand (length U) C)) (columns rows)"
    and "accepted_set Thinned'"
  proof (atomize (full), cases Thinned)
    case (Arr1 xs)
    with T have "xs = []" by (simp add: accepted_set_def)
    with Arr1 res sel_set sel_pts meq
    show "points Thinned' = points Thinned @ compress (map2 less_ieee U (expand (length U) C)) (columns rows)
          \<and> accepted_set Thinned'"
      by auto
  next
    case (Arr2 acc_rows)
    with T have ne: "acc_rows \<noteq> []" and rect: "list_all (\<lambda>r. length r = ncols acc_rows) acc_rows"
      by (simp_all add: accepted_set_def)
    from Arr2 res ne have eq: "length acc_rows = length rows"
      and T': "Thinned' = Arr2 (map2 (@) acc_rows ?sel)"
      by (auto split: if_splits)
    have pts: "points Thinned' = columns acc_rows @ compress m (columns rows)"
      using columns_append [of acc_rows ?sel, OF _ rect] eq
      by (simp add: T' columns_compress)
    have rect': "list_all (\<lambda>r. length r = ncols acc_rows + length (filter id m)) (map2 (@) acc_rows ?sel)"
      using rect sel_len eq
      by (auto simp: list_all_iff set_zip) 
    have ne': "map2 (@) acc_rows ?sel \<noteq> []" using ne rows(1) eq by (cases acc_rows; cases rows) simp_all
    have "accepted_set Thinned'"
      using rect' ne' ncols_rect [OF ne' rect'] by (simp add: T' accepted_set_def)
    with pts Arr2 meq
    show "points Thinned' = points Thinned @ compress (map2 less_ieee U (expand (length U) C)) (columns rows)
          \<and> accepted_set Thinned'"
      by simp
  qed
qed











lemma numpy_random_counter_libs: "numpy_random counter_libs"
proof -
  have len: "length (ticks k g) = k" for k g
    by (induction k arbitrary: g) simp_all
  have u: "lo \<le> lo + (hi - lo) * (real (i mod 4) / 4) \<and> lo + (hi - lo) * (real (i mod 4) / 4) < hi"
    if "lo < hi" for lo hi :: real and i :: nat
  proof -
    have "i mod 4 < 4" by simp
    then have r: "0 \<le> real (i mod 4) / 4" "real (i mod 4) / 4 < 1" by simp_all
    have "(hi - lo) * (real (i mod 4) / 4) < (hi - lo) * 1"
      using that r(2) by (intro mult_strict_left_mono) simp_all
    moreover have "0 \<le> (hi - lo) * (real (i mod 4) / 4)"
      using that r(1) by (intro mult_nonneg_nonneg) simp_all
    ultimately show ?thesis by simp
  qed
  have r: "lo \<le> lo + int i mod (hi - lo) \<and> lo + int i mod (hi - lo) < hi"
    if "lo < hi" for lo hi :: int and i :: nat
  proof -
    have "0 < hi - lo" using that by simp
    from pos_mod_bound [OF this, of "int i"] pos_mod_sign [OF this, of "int i"]
    show ?thesis by linarith
  qed
  have u': "lo \<le> lo + (hi - lo) * real (i mod 4) / 4 \<and> lo + (hi - lo) * real (i mod 4) / 4 < hi"
    if "lo < hi" for lo hi :: real and i :: nat
    using u [OF that, of i] by simp
  show ?thesis
    using u' r by (simp add: numpy_random_def counter_libs_def len list_all_iff)
qed

lemma loop_body_Arr2:
  assumes "generate L dens bounds bs g = Inr (Some (Arr2 rows), g1)"
  shows "loop_body L dens lmax bounds bs Thinned g =
     (case criteria dens lmax (Arr2 rows) of
        Inl e \<Rightarrow> Inl e
      | Inr C \<Rightarrow>
          (case accept Thinned (Arr2 rows) (fst (uniform L 0 1 bs g1)) C of
             Inl e \<Rightarrow> Inl e
           | Inr Thinned' \<Rightarrow> Inr (Thinned', snd (uniform L 0 1 bs g1))))"
  using assms by (simp add: loop_body_def case_prod_unfold split: sum.splits)

lemma generate_shape:
  assumes L: "numpy_random L"
    and gen: "generate L dens bounds bs g = Inr (Some (Arr2 rows), g1)"
  shows "rows \<noteq> [] \<and> list_all (\<lambda>r. length r = bs) rows"
proof (cases dens)
  case (Callable f)
  have "generate L dens bounds bs g
      = Inr (pack (fst (draw_rows (draw_uniform L bs) bounds g)), snd (draw_rows (draw_uniform L bs) bounds g))"
    using draw_block_rows [of "draw_uniform L bs" bs bounds g] L
    by (simp add: Callable draw_uniform_length)
  with gen have "pack (fst (draw_rows (draw_uniform L bs) bounds g)) = Some (Arr2 rows)" by simp
  from pack_Arr2 [OF this] draw_rows_lengths [of "draw_uniform L bs" bs bounds g] L
  show ?thesis by (auto simp: draw_uniform_length)
next
  case (NdArray w)
  have "generate L dens bounds bs g
      = Inr (pack (fst (draw_rows (draw_randint L bs) (shape w) g)), snd (draw_rows (draw_randint L bs) (shape w) g))"
    using draw_block_rows [of "draw_randint L bs" bs "shape w" g] L
    by (simp add: NdArray draw_randint_length)
  with gen have "pack (fst (draw_rows (draw_randint L bs) (shape w) g)) = Some (Arr2 rows)" by simp
  from pack_Arr2 [OF this] draw_rows_lengths [of "draw_randint L bs" bs "shape w" g] L
  show ?thesis by (auto simp: draw_randint_length)
next
  case (PyList w)
  with gen show ?thesis by simp
next
  case (PyTuple w)
  with gen show ?thesis by simp
qed

lemma getitem_in_axis:
  assumes "list_all2 in_axis shp pt" "length grid = prod_list shp"
  shows "\<exists>k < length grid. getitem shp grid pt = Inr (grid ! k)"
  using ravel_in_axis [OF assms(1)] assms(2) by (auto simp: getitem_def)

lemma columns_all_empty: "list_all (\<lambda>r. r = []) rows \<Longrightarrow> columns rows = []"
  by (induction rows rule: columns.induct) simp_all

lemma columns_replicate_empty: "columns (replicate d []) = []"
  by (rule columns_all_empty) (simp add: list_all_iff)

lemma prod_list_pos: "list_all (\<lambda>s. 0 < s) ss \<Longrightarrow> 0 < prod_list (ss :: nat list)"
  by (induction ss) simp_all

lemma zero_grid_block:
  assumes L: "numpy_random L"
    and rank: "2 \<le> length (shape w)"
    and pos: "list_all (\<lambda>s. 0 < s) (shape w)"
    and wf: "length (data w) = prod_list (shape w)"
    and zero: "list_all (\<lambda>x. x = 0) (data w)"
    and T: "Thinned = Arr1 [] \<or> Thinned = Arr2 (replicate (length (shape w)) [])"
  shows "\<exists>g'. loop_body L (NdArray w) (NpScalar 0) bounds bs Thinned g
                = Inr (Arr2 (replicate (length (shape w)) []), g')"
proof -
  let ?rows = "fst (draw_rows (draw_randint L bs) (shape w) g)"
  let ?g1 = "snd (draw_rows (draw_randint L bs) (shape w) g)"
  let ?U = "fst (uniform L 0 1 bs ?g1)"
  let ?grid = "map (\<lambda>x. true_divide x 0) (data w)"
  have gen: "generate L (NdArray w) bounds bs g = Inr (Some (Arr2 ?rows), ?g1)"
    using L rank by (rule generate_grid)
  have lrows: "length ?rows = length (shape w)" by (rule length_draw_rows)
  have ne: "?rows \<noteq> []" using lrows rank by auto
  have rect: "list_all (\<lambda>r. length r = bs) ?rows"
    using L by (intro draw_rows_lengths) (simp add: draw_randint_length)
  have lcols: "length (columns ?rows) = bs" using ne rect by (rule length_columns)
  have nan: "getitem (shape w) ?grid p = Inr NaN" if "p \<in> set (columns ?rows)" for p
  proof -
    have "list_all2 in_axis (shape w) p"
      using grid_rows_in_axis [OF L pos] that by (rule columns_all2)
    from getitem_in_axis [OF this, of ?grid] wf
    obtain k where k: "k < length (data w)" and g: "getitem (shape w) ?grid p = Inr (?grid ! k)"
      by auto
    from zero k have "data w ! k = 0" by (simp add: list_all_length)
    with k g show ?thesis by (simp add: true_divide_def)
  qed
  have crit: "criteria (NdArray w) (NpScalar 0) (Arr2 ?rows) = Inr (Vec (map (\<lambda>p. NaN) (columns ?rows)))"
    using map_err_all [of "columns ?rows" "getitem (shape w) ?grid" "\<lambda>p. NaN"] nan
    by (simp add: grid_criteria_def)
  have lU: "length ?U = bs" using L by (rule uniform_length)
  let ?m = "map2 less_ieee ?U (map (\<lambda>p. NaN) (columns ?rows))"
  have mask: "less_mask ?U (Vec (map (\<lambda>p. NaN) (columns ?rows))) = Inr ?m"
    by (simp add: lU lcols)
  have allF: "list_all (\<lambda>b. \<not> b) ?m"
    by (auto simp: list_all_iff set_zip)
  have lm: "length ?m = ncols ?rows" using ncols_rect [OF ne rect] lU lcols by simp
  have "compress ?m = (\<lambda>r. [])"
    by (rule ext) (rule compress_all_False [OF allF])
  then have "map (compress ?m) ?rows = map (\<lambda>r. []) ?rows"
    by (rule arg_cong)
  then have sel: "map (compress ?m) ?rows = replicate (length (shape w)) []"
    by (simp only: map_replicate_const lrows)
  have acc: "accept Thinned (Arr2 ?rows) ?U (Vec (map (\<lambda>p. NaN) (columns ?rows)))
               = Inr (Arr2 (replicate (length (shape w)) []))"
    using T rank
    by (auto simp: accept_def mask sel lU lcols ncols_rect [OF ne rect] simp del: less_mask.simps)
  show ?thesis
    by (simp add: loop_body_Arr2 [OF gen] crit acc del: criteria.simps)
qed

lemma zero_grid_loops:
  assumes L: "numpy_random L"
    and rank: "2 \<le> length (shape w)"
    and pos: "list_all (\<lambda>s. 0 < s) (shape w)"
    and wf: "length (data w) = prod_list (shape w)"
    and zero: "list_all (\<lambda>x. x = 0) (data w)"
    and n: "0 < n"
    and T: "Thinned = Arr1 [] \<or> Thinned = Arr2 (replicate (length (shape w)) [])"
  shows "while_loop L (NdArray w) (NpScalar 0) bounds n bs fuel Thinned g = None"
  using T
proof (induction fuel arbitrary: Thinned g)
  case 0
  with n rank show ?case by (auto simp: columns_replicate_empty)
next
  case (Suc fuel)
  from zero_grid_block [OF L rank pos wf zero Suc.prems, of bounds bs g]
  obtain g' where b: "loop_body L (NdArray w) (NpScalar 0) bounds bs Thinned g
                = Inr (Arr2 (replicate (length (shape w)) []), g')" by blast
  have c: "int (len (T Thinned)) < n"
    using Suc.prems n by (auto simp: columns_replicate_empty)
  show ?case using Suc.IH [of "Arr2 (replicate (length (shape w)) [])" g'] c
    by (simp add: b)
qed

lemma zero_grid_lmax:
  assumes pos: "list_all (\<lambda>s. 0 < s) (shape w)"
    and wf: "length (data w) = prod_list (shape w)"
    and zero: "list_all (\<lambda>x. x = 0) (data w)"
  shows "compute_lmax L \<lparr>density = NdArray w, density_kwargs = kw\<rparr> bounds = Inr (NpScalar 0)"
proof -
  have "0 < prod_list (shape w)" using pos by (rule prod_list_pos)
  with wf have "data w \<noteq> []" by auto
  from amax_zero [OF this zero] show ?thesis by (simp add: compute_lmax_def)
qed


section \<open>The acceptance rule\<close>








section \<open>Determinism\<close>

lemma while_loop_exit:
  "\<not> int (len (T Thinned)) < n \<Longrightarrow>
   while_loop L dens lmax bounds n bs k Thinned g = Some (Inr Thinned)"
  by (cases k) simp_all

lemma while_loop_mono:
  "while_loop L dens lmax bounds n bs fuel Thinned g = Some r \<Longrightarrow>
   while_loop L dens lmax bounds n bs (fuel + k) Thinned g = Some r"
  by (induction fuel arbitrary: Thinned g)
     (auto simp: while_loop_exit split: if_splits sum.splits prod.splits)

lemma while_loop_deterministic:
  assumes "while_loop L dens lmax bounds n bs fuel1 Thinned g = Some r1"
    and "while_loop L dens lmax bounds n bs fuel2 Thinned g = Some r2"
  shows "r1 = r2"
proof (cases "fuel1 \<le> fuel2")
  case True
  then obtain k where "fuel2 = fuel1 + k" by (auto simp: le_iff_add)
  with while_loop_mono [OF assms(1), of k] assms(2) show ?thesis by simp
next
  case False
  then obtain k where "fuel1 = fuel2 + k" by (metis le_iff_add nat_le_linear)
  with while_loop_mono [OF assms(2), of k] assms(1) show ?thesis by simp
qed

text \<open>
  C9. Two calls with the same arguments and the same state of the random source give the same
  output. In the model a call is determined by its arguments, the state \<open>g\<close> and the number of
  blocks it is allowed to draw; the result does not depend on that number: whenever two runs
  from the same arguments and state both return, they return the same value or raise the same
  error. (The density is a function of its arguments: a callable with hidden state is outside
  the model.)
\<close>

theorem sample_deterministic:
  assumes "result (sample L self n bounds algo bs fuel1 g) = Some r1"
    and "result (sample L self n bounds algo bs fuel2 g) = Some r2"
  shows "r1 = r2"
proof -
  have s1: "sample_spatial_point_process L self n bounds algo bs fuel1 g = Some r1"
    using assms(1) by (simp add: sample_def split: density_obj.splits)
  have s2: "sample_spatial_point_process L self n bounds algo bs fuel2 g = Some r2"
    using assms(2) by (simp add: sample_def split: density_obj.splits)
  show ?thesis
  proof (cases "\<exists>n' lmax. n = Some n' \<and> bounds \<noteq> TupleB [] \<and> algo = ''thinning''
                   \<and> compute_lmax L self (pairs bounds) = Inr lmax")
    case False
    with s1 s2 show ?thesis
      by (auto simp: sample_spatial_point_process_def split: option.splits if_splits sum.splits)
  next
    case True
    then obtain n' lmax where n: "n = Some n'" and b: "bounds \<noteq> TupleB []"
      and a: "algo = ''thinning''" and l: "compute_lmax L self (pairs bounds) = Inr lmax"
      by blast
    from s1 obtain w1 where w1: "while_loop L (density self) lmax (pairs bounds) n' bs fuel1 (Arr1 []) g = Some w1"
      by (auto simp: sample_spatial_point_process_def n b a l split: option.splits)
    from s2 obtain w2 where w2: "while_loop L (density self) lmax (pairs bounds) n' bs fuel2 (Arr1 []) g = Some w2"
      by (auto simp: sample_spatial_point_process_def n b a l split: option.splits)
    have "w1 = w2" using while_loop_deterministic [OF w1 w2] .
    with s1 s2 w1 w2 show ?thesis
      by (simp add: sample_spatial_point_process_def n b a l)
  qed
qed

theorem sample_deterministic_witness:
  "result (sample counter_libs \<lparr>density = Callable const_density, density_kwargs = []\<rparr>
            (Some 1) (ListB [(0, 1), (2, 4)]) ''thinning'' 2 (Suc 0) 0)
     = Some (Inr (Points (Arr2 [[FloatV 0, FloatV 3]])))
   \<and> result (sample counter_libs \<lparr>density = Callable const_density, density_kwargs = []\<rparr>
            (Some 1) (ListB [(0, 1), (2, 4)]) ''thinning'' 2 (Suc (Suc 0)) 0)
     = Some (Inr (Points (Arr2 [[FloatV 0, FloatV 3]])))"
proof -
  let ?run = "\<lambda>fuel. result (sample counter_libs
      \<lparr>density = Callable const_density, density_kwargs = []\<rparr>
      (Some 1) (ListB [(0, 1), (2, 4)]) ''thinning'' 2 fuel 0)"
  have one: "?run (Suc 0) = Some (Inr (Points (Arr2 [[FloatV 0, FloatV 3]])))"
    by (simp add: sample_def sample_spatial_point_process_def compute_lmax_def counter_libs_def
        point_arg_def loop_body_def draw_uniform_def accept_def slice_to_def numeral_2_eq_2)
  have two: "?run (Suc (Suc 0)) = Some (Inr (Points (Arr2 [[FloatV 0, FloatV 3]])))"
    by (simp add: sample_def sample_spatial_point_process_def compute_lmax_def counter_libs_def
        point_arg_def loop_body_def draw_uniform_def accept_def slice_to_def numeral_2_eq_2)
  from sample_deterministic [OF one two] one two show ?thesis by simp
qed

section \<open>A zero maximum\<close>




text \<open>
  A callable density that returns the Python float \<open>0.0\<close> behaves differently: the maximum is
  the Python float \<open>0.0\<close>, and the first division \<^verbatim>\<open>self.density(Unthinned.T)/lmax\<close> is a
  division of Python floats, which raises \<^verbatim>\<open>ZeroDivisionError\<close> inside the loop.
\<close>

lemma python_zero_maximum_raises:
  assumes "numpy_random L"
    and "2 \<le> length bounds"
    and "\<And>X. f [Array X] [] = Inr (PyNum 0)"
  shows "loop_body L (Callable f) (PyNum 0) bounds blocksize Thinned g = Inl ZeroDivisionError"
  by (simp add: loop_body_Arr2 [OF generate_callable [OF assms(1,2)]] assms(3))

section \<open>No bound on the number of blocks\<close>

text \<open>
  C5, as the code has it. The loop has no budget: it draws blocks until \<open>n\<close> candidates are
  accepted. On a weight array of rank two or more whose entries are all zero nothing is ever
  accepted, and a call with a positive \<open>n\<close> does not return: whatever number of blocks it is
  given, it is still in the loop.
\<close>

theorem zero_density_never_returns:
  assumes "numpy_random L"
    and "2 \<le> length (shape w)"
    and "list_all (\<lambda>s. 0 < s) (shape w)"
    and "length (data w) = prod_list (shape w)"
    and "list_all (\<lambda>x. x = 0) (data w)"
    and "0 < n"
    and "bounds \<noteq> TupleB []"
  shows "result (sample L \<lparr>density = NdArray w, density_kwargs = kw\<rparr> (Some n) bounds
                   ''thinning'' blocksize fuel g) = None"
  using zero_grid_lmax [OF assms(3-5), of L kw "pairs bounds"]
    zero_grid_loops [OF assms(1-6), of "Arr1 []" "pairs bounds" blocksize fuel g] assms(7)
  by (simp add: sample_def sample_spatial_point_process_def)

theorem zero_density_never_returns_witness:
  "numpy_random counter_libs
   \<and> result (sample counter_libs
        \<lparr>density = NdArray \<lparr>shape = [2, 3], data = [0, 0, 0, 0, 0, 0]\<rparr>, density_kwargs = []\<rparr>
        (Some 4) (ListB [(0, 2), (0, 3)]) ''thinning'' 1000 50 0) = None"
proof -
  let ?w = "\<lparr>shape = [2, 3], data = [0, 0, 0, 0, 0, 0]\<rparr>"
  have r: "2 \<le> length (shape ?w)" by simp
  have p: "list_all (\<lambda>s. 0 < s) (shape ?w)" by simp
  have d: "length (data ?w) = prod_list (shape ?w)" by simp
  have z: "list_all (\<lambda>x. x = 0) (data ?w)" by simp
  have n: "(0::int) < 4" by simp
  have b: "ListB [(0, 2), (0, 3)] \<noteq> TupleB []" by simp
  from zero_density_never_returns [OF numpy_random_counter_libs r p d z n b, of "[]" 1000 50 0]
    numpy_random_counter_libs
  show ?thesis by simp
qed

text \<open>
  The claim C5 says that every call ends. The call below, on the zero array of shape
  \<open>(2, 2)\<close>, has not returned after any number of blocks.
\<close>

theorem unbounded_loop_counterexample:
  "\<forall>fuel. result (sample counter_libs
        \<lparr>density = NdArray \<lparr>shape = [2, 2], data = [0, 0, 0, 0]\<rparr>, density_kwargs = []\<rparr>
        (Some 1) (ListB [(0, 2), (0, 2)]) ''thinning'' 1000 fuel 0) = None"
proof
  fix fuel
  let ?w = "\<lparr>shape = [2, 2], data = [0, 0, 0, 0]\<rparr>"
  have r: "2 \<le> length (shape ?w)" by simp
  have p: "list_all (\<lambda>s. 0 < s) (shape ?w)" by simp
  have d: "length (data ?w) = prod_list (shape ?w)" by simp
  have z: "list_all (\<lambda>x. x = 0) (data ?w)" by simp
  have n: "(0::int) < 1" by simp
  have "while_loop counter_libs (NdArray ?w) (NpScalar 0) [(0, 2), (0, 2)] 1 1000 fuel (Arr1 []) 0
          = None"
    by (rule zero_grid_loops [OF numpy_random_counter_libs r p d z n]) simp
  with zero_grid_lmax [OF p d z, of counter_libs "[]" "[(0, 2), (0, 2)]"]
  show "result (sample counter_libs \<lparr>density = NdArray ?w, density_kwargs = []\<rparr>
        (Some 1) (ListB [(0, 2), (0, 2)]) ''thinning'' 1000 fuel 0) = None"
    by (simp add: sample_def sample_spatial_point_process_def)
qed

section \<open>The maximum\<close>

lemma fold_max_Max: "fold max xs (x :: real) = Max (set (x # xs))"
  by (rule Max.set_eq_fold [symmetric])

text \<open>For a weight array the maximum is the largest entry.\<close>

lemma lmax_grid:
  assumes "compute_lmax L \<lparr>density = NdArray w, density_kwargs = kw\<rparr> bounds = Inr lmax"
  shows "lmax = NpScalar (Max (set (data w)))"
  using assms
  by (cases "data w") (auto simp: compute_lmax_def amax_def fold_max_Max simp del: Max_insert set_simps)

text \<open>
  For a callable density without keyword arguments the maximum is the value of the density at
  the point the optimizer returned, and the optimizer was started at the midpoints of the
  bounds on the negated density.
\<close>

lemma lmax_callable:
  assumes "compute_lmax L \<lparr>density = Callable f, density_kwargs = []\<rparr> bounds = Inr lmax"
  shows "\<exists>x. minimize L (\<lambda>x. map_sum id neg (f [point_arg x] []))
               (map (\<lambda>(lo, hi). (lo + hi) / 2) bounds) bounds = Inr x
           \<and> f [point_arg x] [] = Inr lmax"
  using assms by (auto simp: compute_lmax_def split: sum.splits)

text \<open>
  C3 fails on a density with a keyword argument. The call
  \<^verbatim>\<open>self.density(max.x, *self.density_kwargs)\<close> passes the key \<^verbatim>\<open>'scale'\<close> as the
  second positional argument, so the density multiplies a string by a float and raises
  \<^verbatim>\<open>TypeError\<close>; the density has the value \<open>1\<close> at the point the optimizer returned
  (and \<open>2\<close> there with the keyword argument applied).
\<close>

theorem lmax_kwargs_keys_positional:
  "minimize counter_libs (\<lambda>x. map_sum id neg (scaled_density [point_arg x] []))
       [1 / 2, 1 / 2] [(0, 1), (0, 1)] = Inr [1 / 2, 1 / 2]
   \<and> scaled_density [point_arg [1 / 2, 1 / 2]] [] = Inr (PyNum 1)
   \<and> scaled_density [point_arg [1 / 2, 1 / 2]] [(''scale'', Number 2)] = Inr (PyNum 2)
   \<and> compute_lmax counter_libs
         \<lparr>density = Callable scaled_density, density_kwargs = [(''scale'', Number 2)]\<rparr>
         [(0, 1), (0, 1)] = Inl TypeError
   \<and> result (sample counter_libs
         \<lparr>density = Callable scaled_density, density_kwargs = [(''scale'', Number 2)]\<rparr>
         (Some 1) (ListB [(0, 1), (0, 1)]) ''thinning'' 1000 1 0) = Some (Inl TypeError)"
  by (simp add: compute_lmax_def counter_libs_def scaled_density_def point_arg_def sample_def
        sample_spatial_point_process_def)

section \<open>The points returned\<close>

lemma block_in_range:
  assumes L: "numpy_random L"
    and reg: "proper_region dens bounds"
    and gen: "generate L dens bounds bs g = Inr (Some (Arr2 rows), g1)"
    and p: "p \<in> set (columns rows)"
  shows "in_range dens bounds p"
proof (cases dens)
  case (Callable f)
  have "generate L dens bounds bs g
      = Inr (pack (fst (draw_rows (draw_uniform L bs) bounds g)), snd (draw_rows (draw_uniform L bs) bounds g))"
    using draw_block_rows [of "draw_uniform L bs" bs bounds g] L
    by (simp add: Callable draw_uniform_length)
  with gen have "pack (fst (draw_rows (draw_uniform L bs) bounds g)) = Some (Arr2 rows)" by simp
  from pack_Arr2 [OF this] have rows: "rows = fst (draw_rows (draw_uniform L bs) bounds g)" by simp
  have "list_all2 (\<lambda>b r. \<forall>x\<in>set r. in_bound b x) bounds rows"
    unfolding rows using reg L
    by (intro draw_rows_all2) (auto simp: Callable list_all_iff dest: draw_uniform_in_bound)
  from columns_all2 [OF this p] show ?thesis by (simp add: Callable)
next
  case (NdArray w)
  have "generate L dens bounds bs g
      = Inr (pack (fst (draw_rows (draw_randint L bs) (shape w) g)), snd (draw_rows (draw_randint L bs) (shape w) g))"
    using draw_block_rows [of "draw_randint L bs" bs "shape w" g] L
    by (simp add: NdArray draw_randint_length)
  with gen have "pack (fst (draw_rows (draw_randint L bs) (shape w) g)) = Some (Arr2 rows)" by simp
  from pack_Arr2 [OF this] have rows: "rows = fst (draw_rows (draw_randint L bs) (shape w) g)" by simp
  have "list_all2 (\<lambda>s r. \<forall>x\<in>set r. in_axis s x) (shape w) rows"
    unfolding rows using reg L by (intro grid_rows_in_axis) (simp_all add: NdArray)
  from columns_all2 [OF this p] show ?thesis by (simp add: NdArray)
next
  case (PyList w)
  with gen show ?thesis by simp
next
  case (PyTuple w)
  with gen show ?thesis by simp
qed

lemma loop_body_invariant:
  assumes L: "numpy_random L"
    and reg: "proper_region dens bounds"
    and body: "loop_body L dens lmax bounds bs Thinned g = Inr (Thinned', g')"
    and T: "accepted_set Thinned"
    and pts: "list_all (in_range dens bounds) (points Thinned)"
  shows "accepted_set Thinned' \<and> list_all (in_range dens bounds) (points Thinned')"
proof -
  from body obtain Unthinned g1 where gen0: "generate L dens bounds bs g = Inr (Some Unthinned, g1)"
    and nd: "ndim (T Unthinned) \<noteq> 1"
    by (auto simp: loop_body_def split: sum.splits option.splits if_splits)
  from nd obtain rows where U: "Unthinned = Arr2 rows" by (cases Unthinned) simp_all
  note gen = gen0 [unfolded U]
  from generate_shape [OF L gen] have ne: "rows \<noteq> []" and rect: "list_all (\<lambda>r. length r = bs) rows"
    by simp_all
  let ?U = "fst (uniform L 0 1 bs g1)"
  have lU: "length ?U = bs" using L by (rule uniform_length)
  from body obtain C where acc: "accept Thinned (Arr2 rows) ?U C = Inr Thinned'"
    by (auto simp: loop_body_Arr2 [OF gen] split: sum.splits)
  have rect': "list_all (\<lambda>r. length r = length ?U) rows" using rect lU by simp
  note ap = accept_points [OF T ne rect' acc]
  have "list_all (in_range dens bounds) (compress (map2 less_ieee ?U (expand (length ?U) C)) (columns rows))"
    using set_compress [of _ "columns rows"] block_in_range [OF L reg gen]
    by (auto simp: list_all_iff)
  with ap pts show ?thesis by simp
qed

lemma while_loop_invariant:
  assumes L: "numpy_random L"
    and reg: "proper_region dens bounds"
  shows "while_loop L dens lmax bounds n bs fuel Thinned g = Some (Inr Thinned') \<Longrightarrow>
         accepted_set Thinned \<Longrightarrow> list_all (in_range dens bounds) (points Thinned) \<Longrightarrow>
         accepted_set Thinned' \<and> list_all (in_range dens bounds) (points Thinned')
           \<and> n \<le> int (length (points Thinned'))
           \<and> (n \<le> 0 \<longrightarrow> Thinned' = Thinned)"
proof (induction fuel arbitrary: Thinned g)
  case 0
  then show ?case by (auto simp: len_T_points split: if_splits)
next
  case (Suc fuel)
  show ?case
  proof (cases "int (len (T Thinned)) < n")
    case False
    with Suc.prems show ?thesis by (auto simp: len_T_points)
  next
    case True
    with Suc.prems(1) obtain T1 g1 where b: "loop_body L dens lmax bounds bs Thinned g = Inr (T1, g1)"
      and w: "while_loop L dens lmax bounds n bs fuel T1 g1 = Some (Inr Thinned')"
      by (auto split: sum.splits)
    from loop_body_invariant [OF L reg b Suc.prems(2,3)]
    have "accepted_set T1" "list_all (in_range dens bounds) (points T1)" by simp_all
    from Suc.IH [OF w this] True show ?thesis by (auto simp: len_T_points)
  qed
qed

text \<open>
  What C1 says holds for every call that returns a matrix, from a region with \<open>low < high\<close> in
  every bound pair (callable density) or without an empty axis (weight array): the matrix has
  exactly \<open>n\<close> rows, they are the first \<open>n\<close> points of the accepted set, in the order of
  acceptance, and each row is a point of the region. Such a call has two bound pairs or more,
  or a weight array of rank two or more: a one-dimensional call returns nothing.
\<close>

lemma sample_points_in_range:
  assumes L: "numpy_random L"
    and reg: "proper_region (density self) (pairs bounds)"
    and ret: "result (sample L self n bounds algo blocksize fuel g) = Some (Inr (Points M))"
  shows "\<exists>n' lmax Thinned rows.
           n = Some n'
         \<and> compute_lmax L self (pairs bounds) = Inr lmax
         \<and> while_loop L (density self) lmax (pairs bounds) n' blocksize fuel (Arr1 []) g
             = Some (Inr Thinned)
         \<and> M = Arr2 rows
         \<and> rows = take (nat n') (points Thinned)
         \<and> int (length rows) = n'
         \<and> list_all (in_range (density self) (pairs bounds)) rows"
proof -
  have s: "sample_spatial_point_process L self n bounds algo blocksize fuel g = Some (Inr (Points M))"
    using ret by (simp add: sample_def split: density_obj.splits)
  then obtain n' lmax Thinned Th' where n: "n = Some n'"
    and l: "compute_lmax L self (pairs bounds) = Inr lmax"
    and w: "while_loop L (density self) lmax (pairs bounds) n' blocksize fuel (Arr1 []) g
              = Some (Inr Thinned)"
    and gc: "getcols_to Thinned n' = Inr Th'" and M: "M = T Th'"
    by (auto simp: sample_spatial_point_process_def split: option.splits if_splits sum.splits)
  have init: "accepted_set (Arr1 ([] :: num list))"
    "list_all (in_range (density self) (pairs bounds)) (points (Arr1 ([] :: num list)))"
    by (simp_all add: accepted_set_def)
  from while_loop_invariant [OF L reg w init]
  have P: "list_all (in_range (density self) (pairs bounds)) (points Thinned)"
    and le: "n' \<le> int (length (points Thinned))" and z: "n' \<le> 0 \<longrightarrow> Thinned = Arr1 []"
    by simp_all
  from gc obtain rows0 where Th: "Thinned = Arr2 rows0" and Th': "Th' = Arr2 (map (slice_to n') rows0)"
    by (cases Thinned) auto
  from z Th have pos: "0 < n'" by auto
  then have sl: "slice_to n' = (take (nat n') :: num list \<Rightarrow> num list)"
    by (auto simp: slice_to_def fun_eq_iff)
  have M': "M = Arr2 (take (nat n') (points Thinned))"
    by (simp add: M Th Th' sl columns_take)
  have "int (length (take (nat n') (points Thinned))) = n'"
    using le pos by simp
  moreover have "list_all (in_range (density self) (pairs bounds)) (take (nat n') (points Thinned))"
    using P by (auto simp: list_all_iff dest: in_set_takeD)
  ultimately show ?thesis using n l w M' by blast
qed

text \<open>
  C1 fails on a weight array of rank one: the call below, on the array
  \<^verbatim>\<open>np.array([1, 0, 0, 0])\<close>, raises \<^verbatim>\<open>AttributeError\<close> in its first iteration
  and returns no point.
\<close>

theorem rank_one_grid_returns_no_points:
  "result (sample counter_libs
      \<lparr>density = NdArray \<lparr>shape = [4], data = [1, 0, 0, 0]\<rparr>, density_kwargs = []\<rparr>
      (Some 1) (ListB [(0, 4)]) ''thinning'' 1000 1 0) = Some (Inl AttributeError)"
  by (simp add: sample_def sample_spatial_point_process_def compute_lmax_def amax_def
        loop_body_def split: prod.splits)

section \<open>One-dimensional calls\<close>

text \<open>
  C8, as the code has it. A one-dimensional call (a callable density with exactly one bound
  pair, or a weight array of rank one) with a positive \<open>n\<close> raises an error and returns no
  points. When \<^verbatim>\<open>lmax\<close> was computed, the first candidate block is a one-dimensional
  array, the reshape step assigns to its attribute \<^verbatim>\<open>T\<close>, and the call raises
  \<^verbatim>\<open>AttributeError\<close> in the first iteration of the loop. When the computation of
  \<^verbatim>\<open>lmax\<close> raises, that error leaves the call before the loop.
\<close>

theorem one_dimensional_call_raises:
  assumes "case density self of
             Callable f \<Rightarrow> length (pairs bounds) = 1
           | NdArray w \<Rightarrow> length (shape w) = 1
           | _ \<Rightarrow> False"
    and "bounds \<noteq> TupleB []"
    and "0 < n"
  shows "(\<exists>row g1. generate L (density self) (pairs bounds) blocksize g = Inr (Some (Arr1 row), g1))
       \<and> result (sample L self (Some n) bounds ''thinning'' blocksize (Suc fuel) g)
           = Some (Inl (case compute_lmax L self (pairs bounds) of
                          Inl e \<Rightarrow> e
                        | Inr lmax \<Rightarrow> AttributeError))"
  using assms
  by (auto simp: sample_def sample_spatial_point_process_def loop_body_def length_Suc_conv
           split: density_obj.splits prod.splits sum.splits)

theorem one_dimensional_call_raises_witness:
  "compute_lmax counter_libs \<lparr>density = Callable const_density, density_kwargs = []\<rparr>
       (pairs (ListB [(0, 1)])) = Inr (PyNum 1)
   \<and> (\<exists>row g1. generate counter_libs (Callable const_density) (pairs (ListB [(0, 1)])) 2 0
                    = Inr (Some (Arr1 row), g1))
   \<and> result (sample counter_libs \<lparr>density = Callable const_density, density_kwargs = []\<rparr>
               (Some 1) (ListB [(0, 1)]) ''thinning'' 2 (Suc 0) 0) = Some (Inl AttributeError)"
proof -
  let ?self = "\<lparr>density = Callable const_density, density_kwargs = []\<rparr>"
  have lmax: "compute_lmax counter_libs ?self (pairs (ListB [(0, 1)])) = Inr (PyNum 1)"
    by (simp add: compute_lmax_def counter_libs_def point_arg_def)
  have one: "case density ?self of
          Callable f \<Rightarrow> length (pairs (ListB [(0, 1)])) = 1
        | NdArray w \<Rightarrow> length (shape w) = 1
        | _ \<Rightarrow> False"
    by simp
  have b: "ListB [(0, 1)] \<noteq> TupleB []" by simp
  have n: "(0::int) < 1" by simp
  from one_dimensional_call_raises [OF one b n, of counter_libs 2 0 0] lmax
  show ?thesis by simp
qed

text \<open>
  The claim C8 says \<^verbatim>\<open>AttributeError\<close> for every one-dimensional call. A callable density
  with a keyword argument over one bound pair raises \<^verbatim>\<open>TypeError\<close> where \<^verbatim>\<open>lmax\<close>
  is computed, and the empty one-dimensional weight array raises \<^verbatim>\<open>ValueError\<close> in
  \<^verbatim>\<open>np.amax\<close>; neither reaches the loop.
\<close>

theorem one_dimensional_lmax_counterexample:
  "result (sample counter_libs
      \<lparr>density = Callable scaled_density, density_kwargs = [(''scale'', Number 2)]\<rparr>
      (Some 1) (ListB [(0, 1)]) ''thinning'' 1000 1 0) = Some (Inl TypeError)
   \<and> result (sample counter_libs
      \<lparr>density = NdArray \<lparr>shape = [0], data = []\<rparr>, density_kwargs = []\<rparr>
      (Some 1) (ListB [(0, 1)]) ''thinning'' 1000 1 0) = Some (Inl ValueError)"
  by (simp add: sample_def sample_spatial_point_process_def compute_lmax_def counter_libs_def
        scaled_density_def point_arg_def amax_def)

section \<open>Calls that sample nothing\<close>

text \<open>
  C6, as the code has it. When \<open>n\<close> and \<^verbatim>\<open>bounds\<close> are not both supplied, or
  \<^verbatim>\<open>algo\<close> is not \<^verbatim>\<open>'thinning'\<close>, the call raises nothing: it returns
  \<^verbatim>\<open>None\<close>.
\<close>

theorem sample_returns_None:
  assumes "n = None \<or> bounds = TupleB [] \<or> algo \<noteq> ''thinning''"
  shows "result (sample L self n bounds algo blocksize fuel g) = Some (Inr PyNone)"
  using assms
  by (auto simp: sample_def sample_spatial_point_process_def split: density_obj.splits option.splits)

theorem sample_returns_None_witness:
  "result (sample counter_libs \<lparr>density = Callable const_density, density_kwargs = []\<rparr>
             (Some 5) (ListB [(0, 1), (0, 1)]) ''rejection'' 1000 0 0) = Some (Inr PyNone)"
proof -
  have "(Some (5::int)) = None \<or> ListB [(0, 1), (0, 1)] = TupleB [] \<or> ''rejection'' \<noteq> ''thinning''"
    by simp
  from sample_returns_None [OF this] show ?thesis .
qed

text \<open>
  The claim C6 asks for \<^verbatim>\<open>MissingArguments\<close>: a call without \<open>n\<close> and without
  \<^verbatim>\<open>bounds\<close> returns \<^verbatim>\<open>None\<close> and raises nothing.
\<close>

theorem missing_arguments_counterexample:
  "result (sample counter_libs \<lparr>density = Callable const_density, density_kwargs = []\<rparr>
             None (TupleB []) ''thinning'' 1000 0 0) = Some (Inr PyNone)"
  by (simp add: sample_def sample_spatial_point_process_def)

section \<open>The diagnostic call\<close>

text \<open>
  C7, as the code has it. \<^verbatim>\<open>sample\<close> prints \<^verbatim>\<open>'a'\<close>; for a callable density it
  prints the bounds and calls the density once with the bound pairs as positional arguments
  and \<^verbatim>\<open>density_kwargs\<close> as keywords, dropping the outcome of that call, error or value.
  Its result is the result of \<^verbatim>\<open>_sample_spatial_point_process\<close>, whose errors reach the
  caller.
\<close>

theorem sample_probes_and_prints:
  "result (sample L self n bounds algo blocksize fuel g)
     = sample_spatial_point_process L self n bounds algo blocksize fuel g
   \<and> stdout (sample L self n bounds algo blocksize fuel g)
     = PrintStr ''a'' #
         (case density self of Callable f \<Rightarrow> [PrintBounds (pairs bounds)] | _ \<Rightarrow> [])
   \<and> probe (sample L self n bounds algo blocksize fuel g)
     = (case density self of
          Callable f \<Rightarrow> Some (f (map Bound (pairs bounds)) (density_kwargs self))
        | _ \<Rightarrow> None)"
  by (simp add: sample_def split: density_obj.splits)

text \<open>
  The claim C7 fails on a density of one argument sampled over two bound pairs: the
  diagnostic call raises \<^verbatim>\<open>TypeError\<close>, the error is dropped, two lines are printed, and
  the call goes on to return its points.
\<close>

theorem swallowed_probe_counterexample:
  "probe (sample counter_libs \<lparr>density = Callable const_density, density_kwargs = []\<rparr>
            (Some 1) (ListB [(0, 1), (2, 4)]) ''thinning'' 2 1 0) = Some (Inl TypeError)
   \<and> stdout (sample counter_libs \<lparr>density = Callable const_density, density_kwargs = []\<rparr>
            (Some 1) (ListB [(0, 1), (2, 4)]) ''thinning'' 2 1 0)
       = [PrintStr ''a'', PrintBounds [(0, 1), (2, 4)]]
   \<and> result (sample counter_libs \<lparr>density = Callable const_density, density_kwargs = []\<rparr>
            (Some 1) (ListB [(0, 1), (2, 4)]) ''thinning'' 2 1 0)
       = Some (Inr (Points (Arr2 [[FloatV 0, FloatV 3]])))"
  by (simp add: sample_def sample_spatial_point_process_def compute_lmax_def counter_libs_def
        point_arg_def loop_body_def draw_uniform_def accept_def compress_def slice_to_def
        numeral_2_eq_2)

section \<open>List and tuple densities\<close>

text \<open>
  C10, as the code has it. A list or a tuple passes the density setter. A later call with
  \<open>n \<ge> 1\<close>, \<^verbatim>\<open>bounds\<close> supplied and \<^verbatim>\<open>algo = 'thinning'\<close> raises
  \<^verbatim>\<open>AttributeError\<close> at the read of \<^verbatim>\<open>self.density.shape\<close> when the list or tuple
  has an entry; when it has none, \<^verbatim>\<open>np.amax\<close> raises \<^verbatim>\<open>ValueError\<close> before the
  loop.
\<close>

theorem list_density_raises:
  assumes "d = PyList w \<or> d = PyTuple w"
    and "bounds \<noteq> TupleB []"
    and "0 < n"
  shows "init (Density d) (Dict kw) = Inr \<lparr>density = d, density_kwargs = kw\<rparr>
       \<and> result (sample L \<lparr>density = d, density_kwargs = kw\<rparr> (Some n) bounds ''thinning''
                   blocksize (Suc fuel) g)
           = Some (Inl (if data w = [] then ValueError else AttributeError))"
  using assms
  by (auto simp: init_def sample_def sample_spatial_point_process_def compute_lmax_def amax_def
        loop_body_def split: list.splits)

theorem list_density_raises_witness:
  "init (Density (PyList \<lparr>shape = [4], data = [1, 0, 0, 0]\<rparr>)) (Dict [])
     = Inr \<lparr>density = PyList \<lparr>shape = [4], data = [1, 0, 0, 0]\<rparr>, density_kwargs = []\<rparr>
   \<and> result (sample counter_libs
               \<lparr>density = PyList \<lparr>shape = [4], data = [1, 0, 0, 0]\<rparr>, density_kwargs = []\<rparr>
               (Some 1) (ListB [(0, 4)]) ''thinning'' 1000 (Suc 0) 0)
       = Some (Inl AttributeError)"
proof -
  let ?w = "\<lparr>shape = [4], data = [1, 0, 0, 0]\<rparr>"
  have d: "PyList ?w = PyList ?w \<or> PyList ?w = PyTuple ?w" by simp
  have b: "ListB [(0, 4)] \<noteq> TupleB []" by simp
  have n: "(0::int) < 1" by simp
  from list_density_raises [OF d b n, of "[]" counter_libs 1000 0 0]
  show ?thesis by simp
qed

text \<open>
  The claim C10 fails on the empty list: the call raises \<^verbatim>\<open>ValueError\<close>, from
  \<^verbatim>\<open>np.amax\<close>, and never reads the attribute \<^verbatim>\<open>shape\<close>.
\<close>

theorem empty_list_density_counterexample:
  "init (Density (PyList \<lparr>shape = [0], data = []\<rparr>)) (Dict [])
     = Inr \<lparr>density = PyList \<lparr>shape = [0], data = []\<rparr>, density_kwargs = []\<rparr>
   \<and> result (sample counter_libs
               \<lparr>density = PyList \<lparr>shape = [0], data = []\<rparr>, density_kwargs = []\<rparr>
               (Some 1) (ListB [(0, 4)]) ''thinning'' 1000 1 0)
       = Some (Inl ValueError)"
  by (simp add: init_def sample_def sample_spatial_point_process_def compute_lmax_def amax_def)

end
